theory Spec2Isabelle
  imports Main
begin

section \<open>Python values, exceptions and built-ins used by upload.py\<close>

text \<open>
  Every exception that upload.py lets escape ends the process, so a raising computation is
  the left summand of a sum type. \<open>FetchError\<close> stands for whatever the download or the
  XML parser raises (URLError, SAXParseException, ...). A Python value that may be
  \<open>None\<close> is an \<open>option\<close>.
\<close>

datatype py_error = AttributeError | IndexError | TypeError | ValueError | FetchError

text \<open>\<open>s.split(c)\<close> for a one-character separator: the segments between the separators,
  always at least one.\<close>

fun split_acc :: "char \<Rightarrow> string \<Rightarrow> string \<Rightarrow> string list" where
  "split_acc c acc [] = [rev acc]"
| "split_acc c acc (x # xs) =
     (if x = c then rev acc # split_acc c [] xs else split_acc c (x # acc) xs)"

definition py_split :: "string \<Rightarrow> char \<Rightarrow> string list" where
  "py_split s c = split_acc c [] s"

text \<open>\<open>xs[i]\<close> for a non-negative literal index: IndexError out of range.\<close>

definition py_index :: "'a list \<Rightarrow> nat \<Rightarrow> py_error + 'a" where
  "py_index xs i = (if i < length xs then Inr (xs ! i) else Inl IndexError)"

text \<open>
  The built-in \<open>int\<close> is a parameter of the model (see the world outside the script):
  Python's strings are Unicode, and \<open>int\<close> also accepts whitespace and decimal digits
  outside ASCII, which a string of bytes cannot hold. \<open>int_ascii\<close> is what \<open>int(s)\<close> gives,
  base 10, for a short string of ASCII characters: surrounding ASCII whitespace is
  dropped, one sign is allowed, then decimal digits, where single underscores may stand
  between digits; anything else is a ValueError. It is used below only as the parser of
  the sample worlds, at such inputs.
\<close>

definition is_space :: "char \<Rightarrow> bool" where
  "is_space c = (c \<in> set [CHR 0x20, CHR 0x09, CHR 0x0A, CHR 0x0B, CHR 0x0C, CHR 0x0D])"

definition is_digit :: "char \<Rightarrow> bool" where
  "is_digit c = (c \<in> set ''0123456789'')"

definition digit_val :: "char \<Rightarrow> int" where
  "digit_val c = int (of_char c) - 48"

definition py_strip :: "string \<Rightarrow> string" where
  "py_strip s = rev (dropWhile is_space (rev (dropWhile is_space s)))"

fun int_digits :: "int \<Rightarrow> bool \<Rightarrow> string \<Rightarrow> int option" where
  "int_digits acc prev [] = (if prev then Some acc else None)"
| "int_digits acc prev (c # cs) =
     (if is_digit c then int_digits (acc * 10 + digit_val c) True cs
      else if c = CHR ''_'' \<and> prev then int_digits acc False cs
      else None)"

definition int_ascii :: "string \<Rightarrow> py_error + int" where
  "int_ascii s =
     (case py_strip s of
        [] \<Rightarrow> Inl ValueError
      | c # cs \<Rightarrow>
          (if c = CHR ''-'' then
             (case int_digits 0 False cs of None \<Rightarrow> Inl ValueError | Some n \<Rightarrow> Inr (- n))
           else if c = CHR ''+'' then
             (case int_digits 0 False cs of None \<Rightarrow> Inl ValueError | Some n \<Rightarrow> Inr n)
           else
             (case int_digits 0 False (c # cs) of None \<Rightarrow> Inl ValueError | Some n \<Rightarrow> Inr n)))"

text \<open>Truthiness of the three values \<open>register_file\<close> can return: True, False, None.\<close>

fun truthy :: "bool option \<Rightarrow> bool" where
  "truthy None = False"
| "truthy (Some b) = b"

section \<open>The pymarc objects\<close>

text \<open>
  upload.py reads three things of a pymarc field: its tag, its first indicator and its
  subfields, a sequence of (code, value) pairs in document order. \<open>get_subfields\<close>
  returns the values whose code is the one asked for; \<open>get_fields\<close> returns the fields
  of a record with the tag asked for. Both keep the order.
\<close>

record field =
  tag :: string
  indicator1 :: string
  subfields :: "(string \<times> string) list"

record marc_record =
  record_fields :: "field list"

definition get_subfields :: "field \<Rightarrow> string \<Rightarrow> string list" where
  "get_subfields f code = map snd (filter (\<lambda>sf. fst sf = code) (subfields f))"

definition get_fields :: "marc_record \<Rightarrow> string \<Rightarrow> field list" where
  "get_fields r t = filter (\<lambda>f. tag f = t) (record_fields r)"

section \<open>Constants and field accessors of upload.py\<close>

definition ELECTRONIC_LOCATION_AND_ACCESS :: string where
  "ELECTRONIC_LOCATION_AND_ACCESS = ''856''"

definition HTTP_ACCESS_METHOD :: string where
  "HTTP_ACCESS_METHOD = ''4''"

definition ACCEPTED_TYPES :: "string list" where
  "ACCEPTED_TYPES = [''MP4'', ''MKV'', ''MOV'']"

definition get_access_method :: "field \<Rightarrow> string" where
  "get_access_method f = indicator1 f"

definition is_http_access_method :: "field \<Rightarrow> bool" where
  "is_http_access_method f = (get_access_method f = HTTP_ACCESS_METHOD)"

text \<open>\<open>get_subfield\<close> falls off its end, returning None, when the list is empty.\<close>

definition get_subfield :: "field \<Rightarrow> string \<Rightarrow> string option" where
  "get_subfield f subfield_name =
     (case get_subfields f subfield_name of [] \<Rightarrow> None | v # _ \<Rightarrow> Some v)"

definition get_type :: "field \<Rightarrow> string option" where
  "get_type f = get_subfield f ''q''"

text \<open>\<open>if size:\<close> is false for None and for the empty string; then None is returned.
  The first argument is the built-in \<open>int\<close>.\<close>

definition get_size :: "(string \<Rightarrow> py_error + int) \<Rightarrow> field \<Rightarrow> py_error + int option" where
  "get_size to_int f =
     (case get_subfield f ''s'' of
        None \<Rightarrow> Inr None
      | Some sz \<Rightarrow>
          (if sz = [] then Inr None
           else (case to_int sz of Inl e \<Rightarrow> Inl e | Inr n \<Rightarrow> Inr (Some n))))"

definition get_control_number :: "field \<Rightarrow> string option" where
  "get_control_number f = get_subfield f ''w''"

definition get_uri :: "field \<Rightarrow> string option" where
  "get_uri f = get_subfield f ''u''"

text \<open>\<open>control_number.split(';')[1]\<close>: None has no \<open>split\<close> (AttributeError); a list of
  one segment has no index 1 (IndexError).\<close>

definition parse_md5 :: "string option \<Rightarrow> py_error + string" where
  "parse_md5 control_number =
     (case control_number of
        None \<Rightarrow> Inl AttributeError
      | Some s \<Rightarrow> py_index (py_split s CHR '';'') 1)"

definition get_md5_checksum :: "field \<Rightarrow> py_error + string" where
  "get_md5_checksum f = parse_md5 (get_control_number f)"

text \<open>\<open>x in ACCEPTED_TYPES\<close> for a value that may be None: None equals no string.\<close>

definition type_accepted :: "string option \<Rightarrow> bool" where
  "type_accepted t = (case t of None \<Rightarrow> False | Some s \<Rightarrow> s \<in> set ACCEPTED_TYPES)"

section \<open>The world outside the script\<close>

text \<open>
  \<open>urlparse\<close> of urllib.parse is a library function: the script only reads the scheme and
  the path of its result, and it can raise ValueError. The model takes it as a parameter,
  and likewise the built-in \<open>int\<close>, which returns an integer or raises ValueError.
  The two network operations are inputs as well: what the download and the XML parser
  give for a collection URL, and what \<open>requests.post\<close> gives for the k-th request of the
  run (a response with status code and body, or an exception with its text).
\<close>

record parse_result =
  scheme :: string
  netloc :: string
  path :: string
  params :: string
  query :: string
  fragment :: string

record payload =
  spaceId :: string
  storageId :: string
  storageFileId :: "string option"
  destinationPath :: "string option"
  size_json :: "int option"
  mode_json :: string
  xattrs_checksum :: string
  autoDetectAttributes :: bool

record request =
  url :: string
  x_auth_token :: string
  json :: payload
  verify :: bool

datatype post_outcome = Response int string | Raises string

datatype fetch_outcome = Parsed "marc_record list" | FetchRaises

record env =
  urlparse :: "string \<Rightarrow> py_error + parse_result"
  int_builtin :: "string \<Rightarrow> py_error + int"
  fetch :: "string \<Rightarrow> fetch_outcome"
  post :: "nat \<Rightarrow> request \<Rightarrow> post_outcome"

text \<open>The parsed command line.\<close>

record args =
  host :: string
  space_id :: string
  storage_id :: string
  token :: string
  collections :: "string list"
  mode :: string
  disable_auto_detection :: bool
  logging_freq :: "int option"
  disable_cert_verification :: bool

text \<open>
  What the script writes, as structured lines rather than formatted text: the lines
  printed on standard output and the calls of \<open>logging.error\<close>.
\<close>

datatype out_line =
  ProcessingCollection string
| RegisteredFiles int
| TotalCount int
| TotalSize int

datatype log_entry =
  HttpFailure "string option" int string
| TransportFailure "string option" string

text \<open>
  The state of a run: the two module-level counters, the requests handed to
  \<open>requests.post\<close> so far, the error log and the standard output. A run that raises keeps
  the state it had reached, so a raising step returns the exception with that state.
\<close>

record run_state =
  total_size :: int
  total_count :: int
  sent :: "request list"
  log :: "log_entry list"
  out :: "out_line list"

type_synonym 'a result = "(py_error \<times> run_state) + 'a"

fun state_of :: "run_state result \<Rightarrow> run_state" where
  "state_of (Inl (e, st)) = st"
| "state_of (Inr st) = st"

section \<open>strip_server_url and register_file\<close>

text \<open>
  \<open>urlparse(None)\<close> does not raise: it returns a result of empty byte strings, whose scheme
  is falsy, so None comes back unchanged.
\<close>

definition strip_server_url ::
  "(string \<Rightarrow> py_error + parse_result) \<Rightarrow> string option \<Rightarrow> py_error + string option" where
  "strip_server_url up storage_file_id =
     (case storage_file_id of
        None \<Rightarrow> Inr None
      | Some s \<Rightarrow>
          (case up s of
             Inl e \<Rightarrow> Inl e
           | Inr parsed_url \<Rightarrow>
               (if scheme parsed_url \<noteq> [] then Inr (Some (path parsed_url))
                else Inr (Some s))))"

definition REGISTER_FILE_ENDPOINT :: "string \<Rightarrow> string" where
  "REGISTER_FILE_ENDPOINT h = ''https://'' @ h @ ''/api/v3/oneprovider/data/register''"

definition build_request :: "args \<Rightarrow> string option \<Rightarrow> int option \<Rightarrow> string \<Rightarrow> request" where
  "build_request a storage_file_id sz checksum =
     \<lparr> url = REGISTER_FILE_ENDPOINT (host a),
       x_auth_token = token a,
       json = \<lparr> spaceId = space_id a,
                storageId = storage_id a,
                storageFileId = storage_file_id,
                destinationPath = storage_file_id,
                size_json = sz,
                mode_json = mode a,
                xattrs_checksum = checksum,
                autoDetectAttributes = (\<not> disable_auto_detection a) \<rparr>,
       verify = (\<not> disable_cert_verification a) \<rparr>"

text \<open>
  \<open>strip_server_url\<close> is called before the \<open>try\<close>, so its exception escapes. Inside the
  \<open>try\<close>: status 201 returns True; any other status logs and returns False; an exception
  is logged and the function falls off its end, returning None.
\<close>

definition register_file ::
  "env \<Rightarrow> args \<Rightarrow> run_state \<Rightarrow> string option \<Rightarrow> int option \<Rightarrow> string
     \<Rightarrow> (bool option \<times> run_state) result" where
  "register_file w a st storage_file_id sz checksum =
     (case strip_server_url (urlparse w) storage_file_id of
        Inl e \<Rightarrow> Inl (e, st)
      | Inr sfid \<Rightarrow>
          (let req = build_request a sfid sz checksum;
               st1 = st\<lparr>sent := sent st @ [req]\<rparr>
           in case post w (length (sent st)) req of
                Response status_code content \<Rightarrow>
                  (if status_code = 201 then Inr (Some True, st1)
                   else Inr (Some False,
                             st1\<lparr>log := log st1 @ [HttpFailure sfid status_code content]\<rparr>))
              | Raises e \<Rightarrow>
                  Inr (None, st1\<lparr>log := log st1 @ [TransportFailure sfid e]\<rparr>)))"

section \<open>The main loop\<close>

text \<open>\<open>args.logging_freq and total_count % args.logging_freq == 0 and total_count > 0\<close>:
  None and 0 are falsy, so the remainder is never taken by zero.\<close>

definition progress_due :: "args \<Rightarrow> int \<Rightarrow> bool" where
  "progress_due a cnt =
     (case logging_freq a of
        None \<Rightarrow> False
      | Some n \<Rightarrow> n \<noteq> 0 \<and> cnt mod n = 0 \<and> cnt > 0)"

text \<open>The statements under a successful registration (lines 206 to 209). Adding None
  to the integer total is a TypeError, raised before either counter has changed.\<close>

definition tally :: "env \<Rightarrow> args \<Rightarrow> run_state \<Rightarrow> field \<Rightarrow> run_state result" where
  "tally w a st f =
     (case get_size (int_builtin w) f of
        Inl e \<Rightarrow> Inl (e, st)
      | Inr None \<Rightarrow> Inl (TypeError, st)
      | Inr (Some n) \<Rightarrow>
          (let st1 = st\<lparr>total_size := total_size st + n\<rparr>;
               st2 = st1\<lparr>total_count := total_count st1 + 1\<rparr>
           in if progress_due a (total_count st2)
              then Inr (st2\<lparr>out := out st2 @ [RegisteredFiles (total_count st2)]\<rparr>)
              else Inr st2))"

text \<open>The call at line 205 with its arguments, which are evaluated left to right before
  the call: URI, size, checksum. \<open>get_uri\<close> cannot raise.\<close>

definition call_register :: "env \<Rightarrow> args \<Rightarrow> run_state \<Rightarrow> field \<Rightarrow> (bool option \<times> run_state) result" where
  "call_register w a st f =
     (case get_size (int_builtin w) f of
        Inl e \<Rightarrow> Inl (e, st)
      | Inr sz \<Rightarrow>
          (case get_md5_checksum f of
             Inl e \<Rightarrow> Inl (e, st)
           | Inr checksum \<Rightarrow> register_file w a st (get_uri f) sz checksum))"

text \<open>The body of the inner loop (lines 203 to 209).\<close>

definition process_field :: "env \<Rightarrow> args \<Rightarrow> run_state \<Rightarrow> field \<Rightarrow> run_state result" where
  "process_field w a st f =
     (if is_http_access_method f then
        (if type_accepted (get_type f) then
           (case call_register w a st f of
              Inl x \<Rightarrow> Inl x
            | Inr (r, st1) \<Rightarrow> (if truthy r then tally w a st1 f else Inr st1))
         else Inr st)
      else Inr st)"

fun process_fields :: "env \<Rightarrow> args \<Rightarrow> run_state \<Rightarrow> field list \<Rightarrow> run_state result" where
  "process_fields w a st [] = Inr st"
| "process_fields w a st (f # fs) =
     (case process_field w a st f of
        Inl x \<Rightarrow> Inl x
      | Inr st1 \<Rightarrow> process_fields w a st1 fs)"

text \<open>\<open>download_and_load_marc21_record\<close> returns the first record, or falls off its end
  (None) when the parser gave no record. A pymarc record object is always truthy, so
  \<open>get_file_fields\<close> returns None exactly when there is no record.\<close>

definition download_and_load_marc21_record :: "env \<Rightarrow> string \<Rightarrow> py_error + marc_record option" where
  "download_and_load_marc21_record w u =
     (case fetch w u of
        FetchRaises \<Rightarrow> Inl FetchError
      | Parsed records \<Rightarrow> (case records of [] \<Rightarrow> Inr None | r # _ \<Rightarrow> Inr (Some r)))"

definition get_file_fields :: "env \<Rightarrow> string \<Rightarrow> py_error + field list option" where
  "get_file_fields w collection_url =
     (case download_and_load_marc21_record w collection_url of
        Inl e \<Rightarrow> Inl e
      | Inr None \<Rightarrow> Inr None
      | Inr (Some collection_record) \<Rightarrow>
          Inr (Some (get_fields collection_record ELECTRONIC_LOCATION_AND_ACCESS)))"

text \<open>The body of the outer loop (lines 200 to 209). Iterating over None is a
  TypeError.\<close>

definition process_collection :: "env \<Rightarrow> args \<Rightarrow> run_state \<Rightarrow> string \<Rightarrow> run_state result" where
  "process_collection w a st collection_url =
     (let st0 = st\<lparr>out := out st @ [ProcessingCollection collection_url]\<rparr>
      in case get_file_fields w collection_url of
           Inl e \<Rightarrow> Inl (e, st0)
         | Inr None \<Rightarrow> Inl (TypeError, st0)
         | Inr (Some file_fields) \<Rightarrow> process_fields w a st0 file_fields)"

fun process_collections :: "env \<Rightarrow> args \<Rightarrow> run_state \<Rightarrow> string list \<Rightarrow> run_state result" where
  "process_collections w a st [] = Inr st"
| "process_collections w a st (u # us) =
     (case process_collection w a st u of
        Inl x \<Rightarrow> Inl x
      | Inr st1 \<Rightarrow> process_collections w a st1 us)"

definition initial_state :: run_state where
  "initial_state = \<lparr> total_size = 0, total_count = 0, sent = [], log = [], out = [] \<rparr>"

definition main :: "env \<Rightarrow> args \<Rightarrow> run_state result" where
  "main w a =
     (case process_collections w a initial_state (collections a) of
        Inl x \<Rightarrow> Inl x
      | Inr st \<Rightarrow>
          Inr (st\<lparr>out := out st @ [TotalCount (total_count st), TotalSize (total_size st)]\<rparr>))"

section \<open>A model of urllib.parse.urlparse\<close>

text \<open>
  The splitting that \<open>urlsplit\<close> and \<open>urlparse\<close> of CPython's urllib.parse do on a string:
  leading control characters and spaces are dropped, tabs and line breaks removed, then
  scheme, authority, fragment, query and parameters are cut off in this order. An
  authority with one square bracket and not the other is a ValueError. The further
  checks of a bracketed host and of a non-ASCII authority are not modelled, so this
  function is used below only at inputs without them.
\<close>

definition scheme_chars :: string where
  "scheme_chars = ''abcdefghijklmnopqrstuvwxyzABCDEFGHIJKLMNOPQRSTUVWXYZ0123456789+-.''"

definition uses_params :: "string list" where
  "uses_params = [[], ''ftp'', ''hdl'', ''prospero'', ''http'', ''imap'', ''https'', ''shttp'',
     ''rtsp'', ''rtsps'', ''rtspu'', ''sip'', ''sips'', ''mms'', ''sftp'', ''tel'']"

definition is_ascii_alpha :: "char \<Rightarrow> bool" where
  "is_ascii_alpha c = (c \<in> set ''abcdefghijklmnopqrstuvwxyzABCDEFGHIJKLMNOPQRSTUVWXYZ'')"

definition ascii_lower :: "char \<Rightarrow> char" where
  "ascii_lower c =
     (if c \<in> set ''ABCDEFGHIJKLMNOPQRSTUVWXYZ'' then char_of (of_char c + (32::nat)) else c)"

text \<open>\<open>s.split(c, 1)\<close> for a string that contains \<open>c\<close>.\<close>

definition cut :: "char \<Rightarrow> string \<Rightarrow> string \<times> string" where
  "cut c s = (takeWhile (\<lambda>x. x \<noteq> c) s, tl (dropWhile (\<lambda>x. x \<noteq> c) s))"

definition split_scheme :: "string \<Rightarrow> string \<times> string" where
  "split_scheme u =
     (case takeWhile (\<lambda>x. x \<noteq> CHR '':'') u of
        [] \<Rightarrow> ([], u)
      | c # cs \<Rightarrow>
          (if CHR '':'' \<in> set u \<and> is_ascii_alpha c \<and> list_all (\<lambda>x. x \<in> set scheme_chars) (c # cs)
           then (map ascii_lower (c # cs), snd (cut CHR '':'' u))
           else ([], u)))"

definition splitnetloc :: "string \<Rightarrow> string \<times> string" where
  "splitnetloc u = (takeWhile (\<lambda>x. x \<notin> set ''/?#'') u, dropWhile (\<lambda>x. x \<notin> set ''/?#'') u)"

definition bad_brackets :: "string \<Rightarrow> bool" where
  "bad_brackets nl =
     ((CHR ''['' \<in> set nl \<and> CHR '']'' \<notin> set nl) \<or> (CHR '']'' \<in> set nl \<and> CHR ''['' \<notin> set nl))"

definition urlsplit_py :: "string \<Rightarrow> py_error + parse_result" where
  "urlsplit_py u0 =
     (let u1 = dropWhile (\<lambda>x. of_char x \<le> (32::nat)) u0;
          u2 = filter (\<lambda>x. x \<notin> set [CHR 0x09, CHR 0x0D, CHR 0x0A]) u1;
          (sch, u3) = split_scheme u2;
          (nl, u4) = (if take 2 u3 = ''//'' then splitnetloc (drop 2 u3) else ([], u3))
      in if bad_brackets nl then Inl ValueError
         else
           (let (u5, frag) = (if CHR ''#'' \<in> set u4 then cut CHR ''#'' u4 else (u4, []));
                (u6, qry) = (if CHR ''?'' \<in> set u5 then cut CHR ''?'' u5 else (u5, []))
            in Inr \<lparr> scheme = sch, netloc = nl, path = u6, params = [],
                     query = qry, fragment = frag \<rparr>))"

text \<open>\<open>_splitparams\<close>: the parameters start at the first semicolon of the last path
  segment.\<close>

definition splitparams :: "string \<Rightarrow> string \<times> string" where
  "splitparams u =
     (if CHR ''/'' \<in> set u then
        (let seg = rev (takeWhile (\<lambda>x. x \<noteq> CHR ''/'') (rev u));
             pre = take (length u - length seg) u
         in if CHR '';'' \<in> set seg then (pre @ fst (cut CHR '';'' seg), snd (cut CHR '';'' seg))
            else (u, []))
      else cut CHR '';'' u)"

definition urlparse_py :: "string \<Rightarrow> py_error + parse_result" where
  "urlparse_py u =
     (case urlsplit_py u of
        Inl e \<Rightarrow> Inl e
      | Inr r \<Rightarrow>
          (if scheme r \<in> set uses_params \<and> CHR '';'' \<in> set (path r)
           then Inr (r\<lparr>path := fst (splitparams (path r)), params := snd (splitparams (path r))\<rparr>)
           else Inr r))"

section \<open>Notions of the specification\<close>

text \<open>Eligibility in the specification's words: the first indicator is the HTTP code and
  the first value of subfield q is one of the three accepted types.\<close>

definition eligible_spec :: "field \<Rightarrow> bool" where
  "eligible_spec f =
     (indicator1 f = ''4'' \<and>
      (case filter (\<lambda>sf. fst sf = ''q'') (subfields f) of
         [] \<Rightarrow> False
       | sf # _ \<Rightarrow> snd sf \<in> {''MP4'', ''MKV'', ''MOV''}))"

text \<open>The counts shown by the periodic progress lines of an output, in order.\<close>

fun progress_lines :: "out_line list \<Rightarrow> int list" where
  "progress_lines [] = []"
| "progress_lines (RegisteredFiles k # ls) = k # progress_lines ls"
| "progress_lines (_ # ls) = progress_lines ls"

text \<open>A field whose size, if \<open>get_size\<close> returns one in the given world, is not negative.\<close>

definition size_not_negative :: "env \<Rightarrow> field \<Rightarrow> bool" where
  "size_not_negative w f =
     (case get_size (int_builtin w) f of Inr (Some n) \<Rightarrow> 0 \<le> n | _ \<Rightarrow> True)"

text \<open>The count k is a multiple of the configured logging frequency. No count is one when
  no frequency is configured, and no positive count is a multiple of 0.\<close>

definition multiple_of_freq :: "args \<Rightarrow> int \<Rightarrow> bool" where
  "multiple_of_freq a k = (case logging_freq a of None \<Rightarrow> False | Some n \<Rightarrow> n dvd k)"

text \<open>From one state of a run to a later one the count has not gone down, and the progress
  lines added in between show exactly the multiples of the frequency among the counts
  passed, in increasing order.\<close>

definition advances :: "args \<Rightarrow> run_state \<Rightarrow> run_state \<Rightarrow> bool" where
  "advances a st st' =
     (total_count st \<le> total_count st' \<and>
      progress_lines (out st') =
        progress_lines (out st) @ filter (multiple_of_freq a) [total_count st + 1 .. total_count st'])"

section \<open>Sample inputs\<close>

text \<open>A command line, and fields of one record: two eligible ones, one with another access
  method, and eligible ones with a control number without separator, without size,
  without control number, and with a negative size.\<close>

definition sample_args :: args where
  "sample_args =
     \<lparr> host = ''provider.example'', space_id = ''space1'', storage_id = ''storage1'',
       token = ''secret'', collections = [''https://catalog.example/record/1''],
       mode = ''0664'', disable_auto_detection = False, logging_freq = Some 1,
       disable_cert_verification = False \<rparr>"

definition mk_field :: "string \<Rightarrow> (string \<times> string) list \<Rightarrow> field" where
  "mk_field ind sfs = \<lparr> tag = ''856'', indicator1 = ind, subfields = sfs \<rparr>"

definition mp4_field :: field where
  "mp4_field = mk_field ''4''
     [(''u'', ''https://host/a/b.mp4''), (''q'', ''MP4''), (''s'', ''1000''),
      (''w'', ''(OCoLC)12345;d41d8cd98f00b204e9800998ecf8427e'')]"

definition mov_field :: field where
  "mov_field = mk_field ''4''
     [(''u'', ''/a/c.mov''), (''q'', ''MOV''), (''s'', ''500''),
      (''w'', ''(OCoLC)12346;0cc175b9c0f1b6a831c399e269772661'')]"

definition ftp_field :: field where
  "ftp_field = mk_field ''1''
     [(''u'', ''ftp://host/a/d.mp4''), (''q'', ''MP4''), (''s'', ''7''), (''w'', ''x;y'')]"

text \<open>A world in which every registration is answered with the given outcome and the
  collection document holds one record with the given fields.\<close>

definition sample_env :: "post_outcome \<Rightarrow> field list \<Rightarrow> env" where
  "sample_env outcome fs =
     \<lparr> urlparse = urlparse_py,
       int_builtin = int_ascii,
       fetch = (\<lambda>u. Parsed [\<lparr> record_fields = fs \<rparr>]),
       post = (\<lambda>k req. outcome) \<rparr>"





definition empty_env :: env where
  "empty_env = \<lparr> urlparse = urlparse_py, int_builtin = int_ascii, fetch = (\<lambda>u. Parsed []),
                 post = (\<lambda>k req. Response 201 ''ok'') \<rparr>"

definition other_tag_field :: field where
  "other_tag_field = \<lparr> tag = ''245'', indicator1 = ''1'', subfields = [(''a'', ''A title'')] \<rparr>"

definition neg_size_field :: field where
  "neg_size_field = mk_field ''4''
     [(''u'', ''/a/n.mp4''), (''q'', ''MP4''), (''s'', ''-5''),
      (''w'', ''(OCoLC)5;e4da3b7fbbce2345d7772b0674a318d5'')]"

section \<open>The sample worlds\<close>

lemma sample_env_sel [simp]:
  "urlparse (sample_env oc fs) = urlparse_py"
  "int_builtin (sample_env oc fs) = int_ascii"
  "post (sample_env oc fs) k req = oc"
  "fetch (sample_env oc fs) u = Parsed [\<lparr> record_fields = fs \<rparr>]"
  by (simp_all add: sample_env_def)

lemma sample_fields_run:
  "process_fields (sample_env (Response 201 ''ok'') []) sample_args initial_state
      [mp4_field, mov_field, ftp_field]
     = Inr \<lparr> total_size = 1500, total_count = 2,
            sent = [build_request sample_args (Some ''/a/b.mp4'') (Some 1000) ''d41d8cd98f00b204e9800998ecf8427e'',
                    build_request sample_args (Some ''/a/c.mov'') (Some 500) ''0cc175b9c0f1b6a831c399e269772661''],
            log = [], out = [RegisteredFiles 1, RegisteredFiles 2] \<rparr>"
proof -
  have u: "strip_server_url urlparse_py (Some ''https://host/a/b.mp4'') = Inr (Some ''/a/b.mp4'')
      \<and> strip_server_url urlparse_py (Some ''/a/c.mov'') = Inr (Some ''/a/c.mov'')"
    by code_simp
  have g: "is_http_access_method mp4_field \<and> type_accepted (get_type mp4_field)
      \<and> get_uri mp4_field = Some ''https://host/a/b.mp4'' \<and> get_size int_ascii mp4_field = Inr (Some 1000)
      \<and> get_md5_checksum mp4_field = Inr ''d41d8cd98f00b204e9800998ecf8427e''
      \<and> is_http_access_method mov_field \<and> type_accepted (get_type mov_field)
      \<and> get_uri mov_field = Some ''/a/c.mov'' \<and> get_size int_ascii mov_field = Inr (Some 500)
      \<and> get_md5_checksum mov_field = Inr ''0cc175b9c0f1b6a831c399e269772661''
      \<and> \<not> is_http_access_method ftp_field"
    by code_simp
  show ?thesis
    using u g
    by (simp add: process_field_def call_register_def register_file_def tally_def Let_def
        progress_due_def sample_env_def sample_args_def initial_state_def build_request_def)
qed

section \<open>Splitting a control number\<close>






section \<open>The eligibility filter\<close>

lemma guards_eligible:
  "(is_http_access_method f \<and> type_accepted (get_type f)) = eligible_spec f"
  by (auto simp: is_http_access_method_def get_access_method_def HTTP_ACCESS_METHOD_def
      type_accepted_def get_type_def get_subfield_def get_subfields_def ACCEPTED_TYPES_def
      eligible_spec_def split: list.splits option.splits)

lemma process_field_skip: "\<not> eligible_spec f \<Longrightarrow> process_field w a st f = Inr st"
  using guards_eligible [of f] by (auto simp: process_field_def)

lemma register_file_sent:
  "register_file w a st u sz ck = Inr (r, st1) \<Longrightarrow>
   \<exists>sfid. strip_server_url (urlparse w) u = Inr sfid \<and> sent st1 = sent st @ [build_request a sfid sz ck]
     \<and> total_count st1 = total_count st \<and> total_size st1 = total_size st \<and> out st1 = out st"
  by (auto simp: register_file_def Let_def split: sum.splits post_outcome.splits if_splits)

lemma register_file_raise:
  "register_file w a st u sz ck = Inl (e, st1) \<Longrightarrow> st1 = st"
  by (auto simp: register_file_def Let_def split: sum.splits post_outcome.splits if_splits)

lemma call_register_sent:
  "call_register w a st f = Inr (r, st1) \<Longrightarrow>
   \<exists>sfid sz ck. get_size (int_builtin w) f = Inr sz \<and> get_md5_checksum f = Inr ck \<and>
     strip_server_url (urlparse w) (get_uri f) = Inr sfid \<and>
     sent st1 = sent st @ [build_request a sfid sz ck]
     \<and> total_count st1 = total_count st \<and> total_size st1 = total_size st \<and> out st1 = out st"
  by (auto simp: call_register_def split: sum.splits dest: register_file_sent)

lemma call_register_raise: "call_register w a st f = Inl (e, st1) \<Longrightarrow> st1 = st"
  by (auto simp: call_register_def split: sum.splits dest: register_file_raise)

lemma tally_sent: "sent (state_of (tally w a st f)) = sent st"
  by (auto simp: tally_def Let_def split: sum.splits option.splits)

lemma process_field_sent_le:
  "length (sent (state_of (process_field w a st f))) \<le> length (sent st) + (if eligible_spec f then 1 else 0)"
proof (cases "eligible_spec f")
  case False
  then show ?thesis by (simp add: process_field_skip)
next
  case True
  show ?thesis
  proof (cases "call_register w a st f")
    case (Inl x)
    obtain e s where x: "x = (e, s)" by (cases x)
    then have "s = st" using Inl call_register_raise by blast
    then show ?thesis using Inl x
      by (auto simp: process_field_def)
  next
    case (Inr y)
    then show ?thesis using call_register_sent [of w a st f "fst y" "snd y"] True
      by (auto simp: process_field_def tally_sent split: prod.splits)
  qed
qed

lemma process_fields_sent_le:
  "length (sent (state_of (process_fields w a st fs))) \<le> length (sent st) + length (filter eligible_spec fs)"
proof (induction fs arbitrary: st)
  case Nil
  then show ?case by simp
next
  case (Cons f fs)
  show ?case
  proof (cases "process_field w a st f")
    case (Inl x)
    then show ?thesis using process_field_sent_le [of w a st f]
      by (cases x) (auto split: if_splits)
  next
    case (Inr st1)
    then show ?thesis using process_field_sent_le [of w a st f] Cons.IH [of st1]
      by (auto split: if_splits)
  qed
qed

lemma register_file_total:
  "strip_server_url (urlparse w) u = Inr sfid \<Longrightarrow>
   \<exists>r st1. register_file w a st u sz ck = Inr (r, st1)
     \<and> sent st1 = sent st @ [build_request a sfid sz ck]"
  by (auto simp: register_file_def Let_def split: post_outcome.splits)

lemma process_field_eligible:
  "eligible_spec f \<Longrightarrow>
   process_field w a st f =
     (case call_register w a st f of
        Inl x \<Rightarrow> Inl x
      | Inr (r, st1) \<Rightarrow> (if truthy r then tally w a st1 f else Inr st1))"
  using guards_eligible [of f] by (simp add: process_field_def)

lemma process_field_sent_request:
  assumes "eligible_spec f" "get_size (int_builtin w) f = Inr sz" "get_md5_checksum f = Inr ck"
    "strip_server_url (urlparse w) (get_uri f) = Inr sfid"
  shows "sent (state_of (process_field w a st f)) = sent st @ [build_request a sfid sz ck]"
proof -
  obtain r st1 where r: "register_file w a st (get_uri f) sz ck = Inr (r, st1)"
    "sent st1 = sent st @ [build_request a sfid sz ck]"
    using register_file_total [OF assms(4)] by blast
  then have "call_register w a st f = Inr (r, st1)"
    using assms(2,3) by (simp add: call_register_def)
  then have "process_field w a st f = (if truthy r then tally w a st1 f else Inr st1)"
    using assms(1) by (simp add: process_field_eligible)
  then show ?thesis using r(2) by (simp add: tally_sent)
qed

lemma process_field_sent_exact:
  assumes "process_field w a st f = Inr st'"
  shows "length (sent st') = length (sent st) + (if eligible_spec f then 1 else 0)"
proof (cases "eligible_spec f")
  case False
  then show ?thesis using assms by (simp add: process_field_skip)
next
  case True
  note p = process_field_eligible [OF True, of w a st]
  show ?thesis
  proof (cases "call_register w a st f")
    case (Inl x)
    then show ?thesis using assms p by simp
  next
    case (Inr y)
    obtain r st1 where y: "y = (r, st1)" by (cases y)
    have s: "length (sent st1) = length (sent st) + 1"
      using call_register_sent Inr y by fastforce
    have "st' = state_of (if truthy r then tally w a st1 f else Inr st1)"
      using assms p Inr y by simp
    then have "sent st' = sent st1" by (simp add: tally_sent)
    then show ?thesis using s True by simp
  qed
qed

lemma process_fields_sent_exact:
  "process_fields w a st fs = Inr st' \<Longrightarrow>
   length (sent st') = length (sent st) + length (filter eligible_spec fs)"
proof (induction fs arbitrary: st)
  case Nil
  then show ?case by simp
next
  case (Cons f fs)
  show ?case
  proof (cases "process_field w a st f")
    case (Inl x)
    then show ?thesis using Cons.prems by simp
  next
    case (Inr st1)
    then have "process_fields w a st1 fs = Inr st'" using Cons.prems by simp
    then have "length (sent st') = length (sent st1) + length (filter eligible_spec fs)"
      by (rule Cons.IH)
    then show ?thesis using process_field_sent_exact [OF Inr] by simp
  qed
qed

text \<open>
  C1. The two guards of the loop body hold for a field exactly when it is eligible in the
  specification's sense: first indicator \<open>4\<close> and first value of subfield q equal to MP4,
  MKV or MOV. A field without subfield q is not eligible. The loop body does nothing at
  all for a field that is not eligible. For an eligible field it is the call of
  \<open>register_file\<close> followed by the bookkeeping; when the three arguments can be
  evaluated, exactly one request, built from that field, is handed to the client, whatever
  the client then answers. A field list that is processed to its end has caused exactly
  one request per eligible field, and any field list at most that many.
\<close>

theorem eligibility_filter:
  "(is_http_access_method f \<and> type_accepted (get_type f)) = eligible_spec f
   \<and> (get_subfields f ''q'' = [] \<longrightarrow> \<not> eligible_spec f)
   \<and> (\<not> eligible_spec f \<longrightarrow> process_field w a st f = Inr st)
   \<and> (eligible_spec f \<longrightarrow>
        process_field w a st f =
          (case call_register w a st f of
             Inl x \<Rightarrow> Inl x
           | Inr (r, st1) \<Rightarrow> (if truthy r then tally w a st1 f else Inr st1)))
   \<and> (eligible_spec f \<and> get_size (int_builtin w) f = Inr sz \<and> get_md5_checksum f = Inr ck
        \<and> strip_server_url (urlparse w) (get_uri f) = Inr sfid \<longrightarrow>
        sent (state_of (process_field w a st f)) = sent st @ [build_request a sfid sz ck])
   \<and> (process_fields w a st fs = Inr st' \<longrightarrow>
        length (sent st') = length (sent st) + length (filter eligible_spec fs))
   \<and> length (sent (state_of (process_fields w a st fs)))
       \<le> length (sent st) + length (filter eligible_spec fs)"
proof -
  have 1: "(is_http_access_method f \<and> type_accepted (get_type f)) = eligible_spec f"
    by (rule guards_eligible)
  have 2: "get_subfields f ''q'' = [] \<longrightarrow> \<not> eligible_spec f"
    by (auto simp: eligible_spec_def get_subfields_def split: list.splits)
  have 3: "\<not> eligible_spec f \<longrightarrow> process_field w a st f = Inr st"
    by (simp add: process_field_skip)
  have 4: "eligible_spec f \<longrightarrow>
        process_field w a st f =
          (case call_register w a st f of
             Inl x \<Rightarrow> Inl x
           | Inr (r, st1) \<Rightarrow> (if truthy r then tally w a st1 f else Inr st1))"
    using process_field_eligible by blast
  have 5: "eligible_spec f \<and> get_size (int_builtin w) f = Inr sz \<and> get_md5_checksum f = Inr ck
        \<and> strip_server_url (urlparse w) (get_uri f) = Inr sfid \<longrightarrow>
        sent (state_of (process_field w a st f)) = sent st @ [build_request a sfid sz ck]"
    using process_field_sent_request by blast
  have 6: "process_fields w a st fs = Inr st' \<longrightarrow>
        length (sent st') = length (sent st) + length (filter eligible_spec fs)"
    using process_fields_sent_exact by blast
  have 7: "length (sent (state_of (process_fields w a st fs)))
       \<le> length (sent st) + length (filter eligible_spec fs)"
    by (rule process_fields_sent_le)
  show ?thesis using 1 2 3 4 5 6 7 by blast
qed

theorem eligibility_filter_witness:
  "\<not> eligible_spec ftp_field
   \<and> process_field (sample_env (Response 201 ''ok'') []) sample_args initial_state ftp_field
       = Inr initial_state
   \<and> get_subfields (mk_field ''4'' [(''u'', ''/a/e.mp4'')]) ''q'' = []
   \<and> \<not> eligible_spec (mk_field ''4'' [(''u'', ''/a/e.mp4'')])
   \<and> eligible_spec mp4_field \<and> eligible_spec mov_field
   \<and> is_http_access_method mp4_field \<and> type_accepted (get_type mp4_field)
   \<and> sent (state_of (process_field (sample_env (Response 403 ''no'') []) sample_args
        initial_state mov_field))
       = [build_request sample_args (Some ''/a/c.mov'') (Some 500) ''0cc175b9c0f1b6a831c399e269772661'']
   \<and> length (filter eligible_spec [mp4_field, mov_field, ftp_field]) = 2
   \<and> length (sent \<lparr> total_size = 1500, total_count = 2,
            sent = [build_request sample_args (Some ''/a/b.mp4'') (Some 1000) ''d41d8cd98f00b204e9800998ecf8427e'',
                    build_request sample_args (Some ''/a/c.mov'') (Some 500) ''0cc175b9c0f1b6a831c399e269772661''],
            log = [], out = [RegisteredFiles 1, RegisteredFiles 2] \<rparr>) = 2"
proof -
  let ?w = "sample_env (Response 201 ''ok'') []"
  let ?w3 = "sample_env (Response 403 ''no'') []"
  let ?q = "mk_field ''4'' [(''u'', ''/a/e.mp4'')]"
  have n: "\<not> eligible_spec ftp_field"
    by (simp add: eligible_spec_def ftp_field_def mk_field_def)
  have q: "get_subfields ?q ''q'' = []"
    by (simp add: get_subfields_def mk_field_def)
  have e: "eligible_spec mp4_field \<and> eligible_spec mov_field"
    by (simp add: eligible_spec_def mp4_field_def mov_field_def mk_field_def)
  have m: "get_size (int_builtin ?w3) mov_field = Inr (Some 500)
      \<and> get_md5_checksum mov_field = Inr ''0cc175b9c0f1b6a831c399e269772661''
      \<and> strip_server_url (urlparse ?w3) (get_uri mov_field) = Inr (Some ''/a/c.mov'')"
    by code_simp
  have i: "sent initial_state = []" by (simp add: initial_state_def)
  note t1 = eligibility_filter [where f = ftp_field and w = ?w and a = sample_args
      and st = initial_state and fs = "[]"]
  note t2 = eligibility_filter [where f = ?q and w = ?w and a = sample_args
      and st = initial_state and fs = "[]"]
  note t3 = eligibility_filter [where f = mp4_field and w = ?w and a = sample_args
      and st = initial_state and fs = "[mp4_field, mov_field, ftp_field]"
      and st' = "\<lparr> total_size = 1500, total_count = 2,
            sent = [build_request sample_args (Some ''/a/b.mp4'') (Some 1000) ''d41d8cd98f00b204e9800998ecf8427e'',
                    build_request sample_args (Some ''/a/c.mov'') (Some 500) ''0cc175b9c0f1b6a831c399e269772661''],
            log = [], out = [RegisteredFiles 1, RegisteredFiles 2] \<rparr>"]
  note t4 = eligibility_filter [where f = mov_field and w = ?w3 and a = sample_args
      and st = initial_state and fs = "[]" and sz = "Some 500"
      and ck = "''0cc175b9c0f1b6a831c399e269772661''" and sfid = "Some ''/a/c.mov''"]
  have a1: "process_field ?w sample_args initial_state ftp_field = Inr initial_state"
    using t1 n by blast
  have a2: "\<not> eligible_spec ?q" using t2 q by blast
  have a3: "is_http_access_method mp4_field \<and> type_accepted (get_type mp4_field)"
    using t3 e by blast
  have a4: "sent (state_of (process_field ?w3 sample_args initial_state mov_field))
       = [build_request sample_args (Some ''/a/c.mov'') (Some 500) ''0cc175b9c0f1b6a831c399e269772661'']"
  proof -
    have "sent (state_of (process_field ?w3 sample_args initial_state mov_field))
       = sent initial_state
         @ [build_request sample_args (Some ''/a/c.mov'') (Some 500) ''0cc175b9c0f1b6a831c399e269772661'']"
      using t4 e m by blast
    then show ?thesis using i by simp
  qed
  have a5: "length (sent \<lparr> total_size = 1500, total_count = 2,
            sent = [build_request sample_args (Some ''/a/b.mp4'') (Some 1000) ''d41d8cd98f00b204e9800998ecf8427e'',
                    build_request sample_args (Some ''/a/c.mov'') (Some 500) ''0cc175b9c0f1b6a831c399e269772661''],
            log = [], out = [RegisteredFiles 1, RegisteredFiles 2] \<rparr>)
        = length (sent initial_state) + length (filter eligible_spec [mp4_field, mov_field, ftp_field])"
    using t3 sample_fields_run by blast
  have a6: "length (filter eligible_spec [mp4_field, mov_field, ftp_field]) = 2"
    using n e by simp
  show ?thesis using n a1 q a2 e a3 a4 a6 by simp
qed

section \<open>The registration client\<close>

text \<open>
  C3. When the URL stripping has returned, \<open>register_file\<close> hands one request to
  \<open>requests.post\<close>. Status 201 makes it return True and log nothing. Any other status
  makes it log the stripped file id, the status code and the body, and return False. An
  exception of the transport makes it log the file id and the exception and return None,
  which is falsy: the loop body then leaves both counters as they were.
\<close>

theorem register_file_outcomes:
  assumes "strip_server_url (urlparse w) u = Inr sfid"
  shows "(post w (length (sent st)) (build_request a sfid sz ck) = Response 201 body \<longrightarrow>
            register_file w a st u sz ck
              = Inr (Some True, st\<lparr>sent := sent st @ [build_request a sfid sz ck]\<rparr>))
       \<and> (post w (length (sent st)) (build_request a sfid sz ck) = Response code body \<and> code \<noteq> 201 \<longrightarrow>
            register_file w a st u sz ck
              = Inr (Some False, st\<lparr>sent := sent st @ [build_request a sfid sz ck],
                                      log := log st @ [HttpFailure sfid code body]\<rparr>))
       \<and> (post w (length (sent st)) (build_request a sfid sz ck) = Raises ex \<longrightarrow>
            register_file w a st u sz ck
              = Inr (None, st\<lparr>sent := sent st @ [build_request a sfid sz ck],
                                log := log st @ [TransportFailure sfid ex]\<rparr>)
            \<and> \<not> truthy None
            \<and> (is_http_access_method f \<and> type_accepted (get_type f) \<and> get_uri f = u
                 \<and> get_size (int_builtin w) f = Inr sz \<and> get_md5_checksum f = Inr ck \<longrightarrow>
               process_field w a st f
                 = Inr (st\<lparr>sent := sent st @ [build_request a sfid sz ck],
                            log := log st @ [TransportFailure sfid ex]\<rparr>)))"
  using assms
  by (auto simp: register_file_def process_field_def call_register_def Let_def)

lemma mp4_uri: "strip_server_url urlparse_py (Some ''https://host/a/b.mp4'') = Inr (Some ''/a/b.mp4'')"
  by code_simp

lemma mp4_size: "get_size int_ascii mp4_field = Inr (Some 1000)"
  by code_simp

lemma mp4_md5: "get_md5_checksum mp4_field = Inr ''d41d8cd98f00b204e9800998ecf8427e''"
  by code_simp

lemma mp4_get_uri: "get_uri mp4_field = Some ''https://host/a/b.mp4''"
  by code_simp

lemma mp4_guards: "is_http_access_method mp4_field \<and> type_accepted (get_type mp4_field)"
  by code_simp

theorem register_file_outcomes_witness:
  "register_file (sample_env (Response 201 ''ok'') []) sample_args initial_state
      (Some ''https://host/a/b.mp4'') (Some 1000) ''d41d''
     = Inr (Some True, initial_state\<lparr>sent := [build_request sample_args (Some ''/a/b.mp4'') (Some 1000) ''d41d'']\<rparr>)
   \<and> register_file (sample_env (Response 403 ''forbidden'') []) sample_args initial_state
      (Some ''https://host/a/b.mp4'') (Some 1000) ''d41d''
     = Inr (Some False, initial_state\<lparr>sent := [build_request sample_args (Some ''/a/b.mp4'') (Some 1000) ''d41d''],
          log := [HttpFailure (Some ''/a/b.mp4'') 403 ''forbidden'']\<rparr>)
   \<and> register_file (sample_env (Raises ''timed out'') []) sample_args initial_state
      (Some ''https://host/a/b.mp4'') (Some 1000) ''d41d''
     = Inr (None, initial_state\<lparr>sent := [build_request sample_args (Some ''/a/b.mp4'') (Some 1000) ''d41d''],
          log := [TransportFailure (Some ''/a/b.mp4'') ''timed out'']\<rparr>)
   \<and> process_field (sample_env (Raises ''timed out'') []) sample_args initial_state mp4_field
     = Inr (initial_state\<lparr>sent := [build_request sample_args (Some ''/a/b.mp4'') (Some 1000) ''d41d8cd98f00b204e9800998ecf8427e''],
          log := [TransportFailure (Some ''/a/b.mp4'') ''timed out'']\<rparr>)"
proof -
  have u: "\<And>oc. strip_server_url (urlparse (sample_env oc [])) (Some ''https://host/a/b.mp4'')
      = Inr (Some ''/a/b.mp4'')"
    using mp4_uri by (simp add: sample_env_def)
  have p: "\<And>oc k r. post (sample_env oc []) k r = oc"
    by (simp add: sample_env_def)
  have i: "sent initial_state = [] \<and> log initial_state = []"
    by (simp add: initial_state_def)
  note t = register_file_outcomes [OF u, where st = initial_state and a = sample_args
      and sz = "Some 1000" and f = mp4_field]
  show ?thesis
    using t [where oc1 = "Response 201 ''ok''" and ck = "''d41d''" and body = "''ok''"]
      t [where oc1 = "Response 403 ''forbidden''" and ck = "''d41d''" and body = "''forbidden''" and code = 403]
      t [where oc1 = "Raises ''timed out''" and ck = "''d41d''" and ex = "''timed out''"]
      t [where oc1 = "Raises ''timed out''" and ck = "''d41d8cd98f00b204e9800998ecf8427e''" and ex = "''timed out''"]
      mp4_size mp4_md5 mp4_get_uri mp4_guards
    by (simp add: p i)
qed

section \<open>The resource locator resolver\<close>

text \<open>
  C4, the claim as stated fails: \<open>strip_server_url\<close> has no handler around \<open>urlparse\<close>,
  and \<open>urlparse\<close> raises ValueError on an authority with an unbalanced square bracket.
\<close>

theorem strip_server_url_raises:
  "strip_server_url urlparse_py (Some ''http://['') = Inl ValueError"
  by code_simp

text \<open>
  C4, amended. \<open>strip_server_url\<close> raises exactly what \<open>urlparse\<close> raises. Whenever
  \<open>urlparse\<close> returns, the result is the path component of the parsed URL if the scheme is
  not empty, and the input unchanged if it is empty.
\<close>

theorem strip_server_url_cases:
  "(up s = Inl e \<longrightarrow> strip_server_url up (Some s) = Inl e)
   \<and> (up s = Inr r \<and> scheme r \<noteq> [] \<longrightarrow> strip_server_url up (Some s) = Inr (Some (path r)))
   \<and> (up s = Inr r \<and> scheme r = [] \<longrightarrow> strip_server_url up (Some s) = Inr (Some s))"
  by (simp add: strip_server_url_def)

lemma urlparse_py_https:
  "urlparse_py ''https://host/a/b.mp4'' =
     Inr \<lparr> scheme = ''https'', netloc = ''host'', path = ''/a/b.mp4'', params = [],
           query = [], fragment = [] \<rparr>"
  by code_simp

lemma urlparse_py_bare:
  "urlparse_py ''/a/b.mp4'' =
     Inr \<lparr> scheme = [], netloc = [], path = ''/a/b.mp4'', params = [],
           query = [], fragment = [] \<rparr>"
  by code_simp

lemma urlparse_py_bracket: "urlparse_py ''http://['' = Inl ValueError"
  by code_simp

theorem strip_server_url_cases_witness:
  "strip_server_url urlparse_py (Some ''https://host/a/b.mp4'') = Inr (Some ''/a/b.mp4'')
   \<and> strip_server_url urlparse_py (Some ''/a/b.mp4'') = Inr (Some ''/a/b.mp4'')
   \<and> strip_server_url urlparse_py (Some ''//['') = Inl ValueError"
proof -
  have b: "urlparse_py ''//['' = Inl ValueError" by code_simp
  show ?thesis
    using strip_server_url_cases [of urlparse_py "''https://host/a/b.mp4''" ValueError
        "\<lparr> scheme = ''https'', netloc = ''host'', path = ''/a/b.mp4'', params = [],
           query = [], fragment = [] \<rparr>"]
      strip_server_url_cases [of urlparse_py "''/a/b.mp4''" ValueError
        "\<lparr> scheme = [], netloc = [], path = ''/a/b.mp4'', params = [],
           query = [], fragment = [] \<rparr>"]
      strip_server_url_cases [of urlparse_py "''//[''" ValueError
        "\<lparr> scheme = [], netloc = [], path = [], params = [], query = [], fragment = [] \<rparr>"]
      urlparse_py_https urlparse_py_bare b
    by simp
qed

section \<open>Checksum derivation\<close>





section \<open>The run totals\<close>

lemma register_file_True_iff:
  "register_file w a st u sz ck = Inr (r, st1) \<Longrightarrow>
   (r = Some True) = (\<exists>body. post w (length (sent st)) (last (sent st1)) = Response 201 body)"
  by (auto simp: register_file_def Let_def split: sum.splits post_outcome.splits if_splits)

lemma call_register_True_iff:
  "call_register w a st f = Inr (r, st1) \<Longrightarrow>
   (r = Some True) = (\<exists>body. post w (length (sent st)) (last (sent st1)) = Response 201 body)"
  by (auto simp: call_register_def split: sum.splits dest: register_file_True_iff)

lemma truthy_iff: "truthy r = (r = Some True)"
  by (cases r) auto

lemma tally_Some:
  "get_size (int_builtin w) f = Inr (Some n) \<Longrightarrow>
   \<exists>st'. tally w a st f = Inr st' \<and> total_count st' = total_count st + 1
     \<and> total_size st' = total_size st + n \<and> sent st' = sent st \<and> log st' = log st"
  by (simp add: tally_def Let_def)


lemma process_field_changed:
  assumes "total_count (state_of (process_field w a st f)) \<noteq> total_count st
           \<or> total_size (state_of (process_field w a st f)) \<noteq> total_size st"
  shows "is_http_access_method f \<and> type_accepted (get_type f)
         \<and> (\<exists>st1. call_register w a st f = Inr (Some True, st1))"
proof -
  have g: "is_http_access_method f \<and> type_accepted (get_type f)"
    using assms by (auto simp: process_field_def split: if_splits)
  show ?thesis
  proof (cases "call_register w a st f")
    case (Inl x)
    obtain e s where x: "x = (e, s)" by (cases x)
    then have "s = st" using Inl call_register_raise by blast
    then show ?thesis using assms Inl x g by (simp add: process_field_def)
  next
    case (Inr y)
    obtain r st1 where y: "y = (r, st1)" by (cases y)
    have same: "total_count st1 = total_count st \<and> total_size st1 = total_size st"
      using call_register_sent Inr y by blast
    have "truthy r"
      using assms Inr y g same by (auto simp: process_field_def split: if_splits)
    then show ?thesis using Inr y g by (simp add: truthy_iff)
  qed
qed

text \<open>
  C2. The counters change only under a registration that \<open>register_file\<close> reported as
  successful, and it reports success exactly when the response has status 201. After
  such a registration of a field with declared size n, the loop body ends normally with
  the count increased by one and the size by n. After a registration reported as failure
  (False for another status, None for an exception) both counters are unchanged.
\<close>

theorem run_totals_follow_success:
  "(is_http_access_method f \<and> type_accepted (get_type f)
      \<and> call_register w a st f = Inr (Some True, st1) \<and> get_size (int_builtin w) f = Inr (Some n) \<longrightarrow>
     (\<exists>st'. process_field w a st f = Inr st' \<and> total_count st' = total_count st + 1
        \<and> total_size st' = total_size st + n))
   \<and> (call_register w a st f = Inr (r, st1) \<and> r \<noteq> Some True \<longrightarrow>
        total_count (state_of (process_field w a st f)) = total_count st
        \<and> total_size (state_of (process_field w a st f)) = total_size st)
   \<and> (total_count (state_of (process_field w a st f)) \<noteq> total_count st
        \<or> total_size (state_of (process_field w a st f)) \<noteq> total_size st \<longrightarrow>
      is_http_access_method f \<and> type_accepted (get_type f)
        \<and> (\<exists>st2. call_register w a st f = Inr (Some True, st2)))
   \<and> (call_register w a st f = Inr (r, st1) \<longrightarrow>
        (r = Some True) = (\<exists>body. post w (length (sent st)) (last (sent st1)) = Response 201 body))"
proof -
  have 1: "is_http_access_method f \<and> type_accepted (get_type f)
      \<and> call_register w a st f = Inr (Some True, st1) \<and> get_size (int_builtin w) f = Inr (Some n) \<longrightarrow>
     (\<exists>st'. process_field w a st f = Inr st' \<and> total_count st' = total_count st + 1
        \<and> total_size st' = total_size st + n)"
  proof (intro impI, elim conjE)
    assume h: "is_http_access_method f" "type_accepted (get_type f)"
      "call_register w a st f = Inr (Some True, st1)" "get_size (int_builtin w) f = Inr (Some n)"
    have same: "total_count st1 = total_count st \<and> total_size st1 = total_size st"
      using call_register_sent h(3) by blast
    obtain st' where "tally w a st1 f = Inr st'" "total_count st' = total_count st1 + 1"
      "total_size st' = total_size st1 + n"
      using tally_Some [OF h(4), of a st1] by blast
    then show "\<exists>st'. process_field w a st f = Inr st' \<and> total_count st' = total_count st + 1
        \<and> total_size st' = total_size st + n"
      using h same by (simp add: process_field_def)
  qed
  have 2: "call_register w a st f = Inr (r, st1) \<and> r \<noteq> Some True \<longrightarrow>
        total_count (state_of (process_field w a st f)) = total_count st
        \<and> total_size (state_of (process_field w a st f)) = total_size st"
  proof (intro impI, elim conjE)
    assume h: "call_register w a st f = Inr (r, st1)" "r \<noteq> Some True"
    have "\<not> (\<exists>st2. call_register w a st f = Inr (Some True, st2))"
      using h by simp
    then have "\<not> (total_count (state_of (process_field w a st f)) \<noteq> total_count st
           \<or> total_size (state_of (process_field w a st f)) \<noteq> total_size st)"
      using process_field_changed [of w a st f] by blast
    then show "total_count (state_of (process_field w a st f)) = total_count st
        \<and> total_size (state_of (process_field w a st f)) = total_size st"
      by simp
  qed
  have 3: "total_count (state_of (process_field w a st f)) \<noteq> total_count st
        \<or> total_size (state_of (process_field w a st f)) \<noteq> total_size st \<longrightarrow>
      is_http_access_method f \<and> type_accepted (get_type f)
        \<and> (\<exists>st2. call_register w a st f = Inr (Some True, st2))"
    using process_field_changed [of w a st f] by blast
  have 4: "call_register w a st f = Inr (r, st1) \<longrightarrow>
        (r = Some True) = (\<exists>body. post w (length (sent st)) (last (sent st1)) = Response 201 body)"
    using call_register_True_iff by blast
  show ?thesis using 1 2 3 4 by blast
qed

lemma mp4_call_ok:
  "call_register (sample_env (Response 201 ''ok'') []) sample_args initial_state mp4_field
     = Inr (Some True, initial_state\<lparr>sent :=
         [build_request sample_args (Some ''/a/b.mp4'') (Some 1000) ''d41d8cd98f00b204e9800998ecf8427e'']\<rparr>)"
  using mp4_uri mp4_size mp4_md5 mp4_get_uri
  by (simp add: call_register_def register_file_def sample_env_def initial_state_def)

lemma mp4_call_403:
  "call_register (sample_env (Response 403 ''no'') []) sample_args initial_state mp4_field
     = Inr (Some False, initial_state\<lparr>sent :=
         [build_request sample_args (Some ''/a/b.mp4'') (Some 1000) ''d41d8cd98f00b204e9800998ecf8427e''],
         log := [HttpFailure (Some ''/a/b.mp4'') 403 ''no'']\<rparr>)"
  using mp4_uri mp4_size mp4_md5 mp4_get_uri
  by (simp add: call_register_def register_file_def sample_env_def initial_state_def)

theorem run_totals_follow_success_witness:
  "(\<exists>st'. process_field (sample_env (Response 201 ''ok'') []) sample_args initial_state mp4_field = Inr st'
      \<and> total_count st' = 1 \<and> total_size st' = 1000)
   \<and> total_count (state_of (process_field (sample_env (Response 403 ''no'') []) sample_args initial_state mp4_field)) = 0
   \<and> total_size (state_of (process_field (sample_env (Response 403 ''no'') []) sample_args initial_state mp4_field)) = 0"
proof -
  have z: "total_count initial_state = 0 \<and> total_size initial_state = 0"
    by (simp add: initial_state_def)
  show ?thesis
    using run_totals_follow_success [of mp4_field "sample_env (Response 201 ''ok'') []" sample_args
        initial_state _ 1000 "Some True"]
      run_totals_follow_success [of mp4_field "sample_env (Response 403 ''no'') []" sample_args
        initial_state _ 1000 "Some False"]
      mp4_call_ok mp4_call_403 mp4_guards mp4_size z
    by simp
qed

section \<open>A field without a size\<close>





section \<open>A field without a control number\<close>




section \<open>A collection without a record\<close>

text \<open>
  C6. When the document of a collection holds no record, \<open>get_file_fields\<close> returns None,
  not an empty sequence, and the loop over it raises TypeError: the run ends with that
  collection and the collections after it are not processed. When the first record has
  no field with tag 856, \<open>get_file_fields\<close> returns the empty sequence and the run goes
  on to the next collection, having only printed the collection's line.
\<close>

theorem absent_record_raises:
  "(fetch w u = Parsed [] \<longrightarrow>
      get_file_fields w u = Inr None
      \<and> process_collection w a st u
          = Inl (TypeError, st\<lparr>out := out st @ [ProcessingCollection u]\<rparr>)
      \<and> process_collections w a st (u # us)
          = Inl (TypeError, st\<lparr>out := out st @ [ProcessingCollection u]\<rparr>))
   \<and> (fetch w u = Parsed (r # rs) \<and> get_fields r ELECTRONIC_LOCATION_AND_ACCESS = [] \<longrightarrow>
      get_file_fields w u = Inr (Some [])
      \<and> process_collection w a st u = Inr (st\<lparr>out := out st @ [ProcessingCollection u]\<rparr>)
      \<and> process_collections w a st (u # us)
          = process_collections w a (st\<lparr>out := out st @ [ProcessingCollection u]\<rparr>) us)"
  by (simp add: get_file_fields_def download_and_load_marc21_record_def process_collection_def)

theorem absent_record_raises_witness:
  "main empty_env (sample_args\<lparr>collections := [''https://catalog.example/record/1'',
        ''https://catalog.example/record/2'']\<rparr>)
     = Inl (TypeError, initial_state\<lparr>out := [ProcessingCollection ''https://catalog.example/record/1'']\<rparr>)
   \<and> main (sample_env (Response 201 ''ok'') [other_tag_field]) sample_args
     = Inr (initial_state\<lparr>out := [ProcessingCollection ''https://catalog.example/record/1'',
          TotalCount 0, TotalSize 0]\<rparr>)"
proof -
  have f1: "fetch empty_env ''https://catalog.example/record/1'' = Parsed []"
    by (simp add: empty_env_def)
  have f2: "fetch (sample_env (Response 201 ''ok'') [other_tag_field]) ''https://catalog.example/record/1''
      = Parsed (\<lparr> record_fields = [other_tag_field] \<rparr> # [])"
    by (simp add: sample_env_def)
  have g: "get_fields \<lparr> record_fields = [other_tag_field] \<rparr> ELECTRONIC_LOCATION_AND_ACCESS = []"
    by (simp add: get_fields_def other_tag_field_def ELECTRONIC_LOCATION_AND_ACCESS_def)
  have a1: "process_collections empty_env
       (sample_args\<lparr>collections := [''https://catalog.example/record/1'',
        ''https://catalog.example/record/2'']\<rparr>) initial_state
       (''https://catalog.example/record/1'' # [''https://catalog.example/record/2''])
     = Inl (TypeError, initial_state\<lparr>out := out initial_state @ [ProcessingCollection ''https://catalog.example/record/1'']\<rparr>)"
    using absent_record_raises [where w = empty_env and u = "''https://catalog.example/record/1''"
        and st = initial_state and us = "[''https://catalog.example/record/2'']"] f1
    by blast
  have a2: "process_collections (sample_env (Response 201 ''ok'') [other_tag_field]) sample_args
       initial_state (''https://catalog.example/record/1'' # [])
     = process_collections (sample_env (Response 201 ''ok'') [other_tag_field]) sample_args
         (initial_state\<lparr>out := out initial_state @ [ProcessingCollection ''https://catalog.example/record/1'']\<rparr>) []"
    using absent_record_raises [where w = "sample_env (Response 201 ''ok'') [other_tag_field]"
        and u = "''https://catalog.example/record/1''"
        and r = "\<lparr> record_fields = [other_tag_field] \<rparr>" and rs = "[]"
        and a = sample_args and st = initial_state and us = "[]"] f2 g
    by blast
  show ?thesis
    using a1 a2 by (simp add: main_def sample_args_def initial_state_def)
qed

section \<open>One step of the loop\<close>

lemma process_field_step:
  "(total_count (state_of (process_field w a st f)) = total_count st
      \<and> total_size (state_of (process_field w a st f)) = total_size st
      \<and> out (state_of (process_field w a st f)) = out st)
   \<or> (\<exists>n. get_size (int_builtin w) f = Inr (Some n)
      \<and> total_count (state_of (process_field w a st f)) = total_count st + 1
      \<and> total_size (state_of (process_field w a st f)) = total_size st + n
      \<and> out (state_of (process_field w a st f)) =
          out st @ (if progress_due a (total_count st + 1)
                    then [RegisteredFiles (total_count st + 1)] else []))"
proof (cases "is_http_access_method f \<and> type_accepted (get_type f)")
  case False
  then show ?thesis by (auto simp: process_field_def)
next
  case g: True
  show ?thesis
  proof (cases "call_register w a st f")
    case (Inl x)
    obtain e s where x: "x = (e, s)" by (cases x)
    then have "s = st" using Inl call_register_raise by blast
    then show ?thesis using Inl x g by (simp add: process_field_def)
  next
    case (Inr y)
    obtain r st1 where y: "y = (r, st1)" by (cases y)
    have same: "total_count st1 = total_count st" "total_size st1 = total_size st"
      "out st1 = out st"
      using call_register_sent Inr y by blast+
    show ?thesis
    proof (cases "truthy r")
      case False
      then show ?thesis using Inr y g same by (simp add: process_field_def)
    next
      case True
      then have p: "process_field w a st f = tally w a st1 f"
        using Inr y g by (simp add: process_field_def)
      show ?thesis
      proof (cases "get_size (int_builtin w) f")
        case (Inl e)
        then show ?thesis using p same by (simp add: tally_def)
      next
        case (Inr sz)
        then show ?thesis using p same
          by (cases sz) (simp_all add: tally_def Let_def)
      qed
    qed
  qed
qed

section \<open>The totals never go down, given sizes that are not negative\<close>

lemma process_field_count_mono:
  "total_count st \<le> total_count (state_of (process_field w a st f))"
  using process_field_step [of w a st f] by auto

lemma process_field_size_mono:
  "size_not_negative w f \<Longrightarrow> total_size st \<le> total_size (state_of (process_field w a st f))"
  using process_field_step [of w a st f] by (auto simp: size_not_negative_def)

lemma process_fields_count_mono:
  "total_count st \<le> total_count (state_of (process_fields w a st fs))"
proof (induction fs arbitrary: st)
  case Nil
  then show ?case by simp
next
  case (Cons f fs)
  show ?case
  proof (cases "process_field w a st f")
    case (Inl x)
    then show ?thesis using process_field_count_mono [of st w a f] by simp
  next
    case (Inr st1)
    then show ?thesis using process_field_count_mono [of st w a f] Cons.IH [of st1] by simp
  qed
qed

lemma process_fields_size_mono:
  "list_all (size_not_negative w) fs \<Longrightarrow>
   total_size st \<le> total_size (state_of (process_fields w a st fs))"
proof (induction fs arbitrary: st)
  case Nil
  then show ?case by simp
next
  case (Cons f fs)
  have f: "size_not_negative w f" and fs: "list_all (size_not_negative w) fs"
    using Cons.prems by simp_all
  show ?case
  proof (cases "process_field w a st f")
    case (Inl x)
    then show ?thesis using process_field_size_mono [OF f, of st a] by simp
  next
    case (Inr st1)
    then show ?thesis
      using process_field_size_mono [OF f, of st a] Cons.IH [OF fs, of st1] by simp
  qed
qed

text \<open>
  C8, the claim as stated fails: the size subfield may parse to a negative integer, and
  the loop adds whatever it parses to, so a successful registration of such a field
  makes the total size smaller.
\<close>

theorem total_size_decremented:
  "total_size (state_of (process_field (sample_env (Response 201 ''ok'') []) sample_args
      initial_state neg_size_field)) < total_size initial_state"
proof -
  have u: "strip_server_url urlparse_py (Some ''/a/n.mp4'') = Inr (Some ''/a/n.mp4'')"
    by code_simp
  have g: "is_http_access_method neg_size_field \<and> type_accepted (get_type neg_size_field)
      \<and> get_uri neg_size_field = Some ''/a/n.mp4'' \<and> get_size int_ascii neg_size_field = Inr (Some (- 5))
      \<and> get_md5_checksum neg_size_field = Inr ''e4da3b7fbbce2345d7772b0674a318d5''"
    by code_simp
  show ?thesis
    using u g
    by (simp add: process_field_def call_register_def register_file_def tally_def Let_def
        sample_env_def initial_state_def)
qed

lemma process_field_success:
  assumes "is_http_access_method f" "type_accepted (get_type f)"
    "call_register w a st f = Inr (Some True, st1)" "get_size (int_builtin w) f = Inr (Some n)"
  shows "\<exists>st'. process_field w a st f = Inr st' \<and> total_count st' = total_count st + 1
           \<and> total_size st' = total_size st + n"
proof -
  have same: "total_count st1 = total_count st \<and> total_size st1 = total_size st"
    using call_register_sent assms(3) by blast
  obtain st' where "tally w a st1 f = Inr st'" "total_count st' = total_count st1 + 1"
    "total_size st' = total_size st1 + n"
    using tally_Some [OF assms(4), of a st1] by blast
  then show ?thesis using assms same by (simp add: process_field_def)
qed

text \<open>
  C8, amended. The count of registered files never goes down across a step of the loop
  or across a whole field list. The total size never goes down across a step whose
  field has no negative size, nor across a field list none of whose sizes is negative,
  where the size of a field is what \<open>get_size\<close> returns for it with the built-in \<open>int\<close> of
  the run. A successful registration of a field of size n changes the total size by
  exactly n, so a field with a negative size lowers it.
\<close>

theorem totals_never_decremented:
  "total_count st \<le> total_count (state_of (process_field w a st f))
   \<and> total_count st \<le> total_count (state_of (process_fields w a st fs))
   \<and> (size_not_negative w f \<longrightarrow> total_size st \<le> total_size (state_of (process_field w a st f)))
   \<and> (list_all (size_not_negative w) fs \<longrightarrow>
        total_size st \<le> total_size (state_of (process_fields w a st fs)))
   \<and> (is_http_access_method f \<and> type_accepted (get_type f)
        \<and> call_register w a st f = Inr (Some True, st1)
        \<and> get_size (int_builtin w) f = Inr (Some n) \<longrightarrow>
        total_size (state_of (process_field w a st f)) = total_size st + n
        \<and> (n < 0) = (total_size (state_of (process_field w a st f)) < total_size st))"
proof -
  have 1: "total_count st \<le> total_count (state_of (process_field w a st f))"
    by (rule process_field_count_mono)
  have 2: "total_count st \<le> total_count (state_of (process_fields w a st fs))"
    by (rule process_fields_count_mono)
  have 3: "size_not_negative w f \<longrightarrow> total_size st \<le> total_size (state_of (process_field w a st f))"
    using process_field_size_mono by blast
  have 4: "list_all (size_not_negative w) fs \<longrightarrow>
        total_size st \<le> total_size (state_of (process_fields w a st fs))"
    using process_fields_size_mono by blast
  have 5: "is_http_access_method f \<and> type_accepted (get_type f)
        \<and> call_register w a st f = Inr (Some True, st1)
        \<and> get_size (int_builtin w) f = Inr (Some n) \<longrightarrow>
        total_size (state_of (process_field w a st f)) = total_size st + n
        \<and> (n < 0) = (total_size (state_of (process_field w a st f)) < total_size st)"
  proof (intro impI, elim conjE)
    assume h: "is_http_access_method f" "type_accepted (get_type f)"
      "call_register w a st f = Inr (Some True, st1)" "get_size (int_builtin w) f = Inr (Some n)"
    obtain st' where "process_field w a st f = Inr st'" "total_size st' = total_size st + n"
      using process_field_success [OF h] by blast
    then show "total_size (state_of (process_field w a st f)) = total_size st + n
        \<and> (n < 0) = (total_size (state_of (process_field w a st f)) < total_size st)"
      by auto
  qed
  show ?thesis using 1 2 3 4 5 by blast
qed

theorem totals_never_decremented_witness:
  "list_all (size_not_negative (sample_env (Response 201 ''ok'') [])) [mp4_field, mov_field, ftp_field]
   \<and> total_count initial_state \<le> 2 \<and> total_size initial_state \<le> 1500
   \<and> get_size (int_builtin (sample_env (Response 201 ''ok'') [])) neg_size_field = Inr (Some (- 5))
   \<and> total_size (state_of (process_field (sample_env (Response 201 ''ok'') []) sample_args
        initial_state neg_size_field)) = - 5
   \<and> \<not> size_not_negative (sample_env (Response 201 ''ok'') []) neg_size_field"
proof -
  let ?w = "sample_env (Response 201 ''ok'') []"
  have n: "list_all (size_not_negative ?w) [mp4_field, mov_field, ftp_field]"
    by code_simp
  note t = totals_never_decremented [where st = initial_state and w = ?w and a = sample_args
      and f = mp4_field and fs = "[mp4_field, mov_field, ftp_field]", unfolded sample_fields_run]
  have c: "total_count initial_state \<le> 2" using t by simp
  have s: "total_size initial_state \<le> 1500" using t n by simp
  have u: "strip_server_url urlparse_py (Some ''/a/n.mp4'') = Inr (Some ''/a/n.mp4'')"
    by code_simp
  have g: "is_http_access_method neg_size_field \<and> type_accepted (get_type neg_size_field)
      \<and> get_uri neg_size_field = Some ''/a/n.mp4''
      \<and> get_size (int_builtin ?w) neg_size_field = Inr (Some (- 5))
      \<and> get_md5_checksum neg_size_field = Inr ''e4da3b7fbbce2345d7772b0674a318d5''
      \<and> \<not> size_not_negative ?w neg_size_field"
    by code_simp
  have r: "call_register ?w sample_args initial_state neg_size_field
      = Inr (Some True, initial_state\<lparr>sent :=
          [build_request sample_args (Some ''/a/n.mp4'') (Some (- 5)) ''e4da3b7fbbce2345d7772b0674a318d5'']\<rparr>)"
    using u g by (simp add: call_register_def register_file_def initial_state_def)
  note t' = totals_never_decremented [where st = initial_state and w = ?w and a = sample_args
      and f = neg_size_field and fs = "[]" and n = "- 5"
      and ?st1.0 = "initial_state\<lparr>sent :=
          [build_request sample_args (Some ''/a/n.mp4'') (Some (- 5)) ''e4da3b7fbbce2345d7772b0674a318d5'']\<rparr>"]
  have d: "total_size (state_of (process_field ?w sample_args initial_state neg_size_field))
      = total_size initial_state + (- 5)"
    using t' g r by blast
  then have d': "total_size (state_of (process_field ?w sample_args initial_state neg_size_field)) = - 5"
    by (simp add: initial_state_def)
  show ?thesis using n c s g d' by blast
qed

section \<open>The periodic progress lines\<close>

lemma progress_lines_append:
  "progress_lines (xs @ ys) = progress_lines xs @ progress_lines ys"
  by (induction xs rule: progress_lines.induct) simp_all

lemma progress_due_iff: "0 < k \<Longrightarrow> progress_due a k = multiple_of_freq a k"
  by (cases "logging_freq a") (auto simp: progress_due_def multiple_of_freq_def dvd_eq_mod_eq_0)

lemma advances_refl: "out st' = out st \<Longrightarrow> total_count st' = total_count st \<Longrightarrow> advances a st st'"
  by (simp add: advances_def)

lemma upto_filter_join:
  assumes "i \<le> j" "j \<le> k"
  shows "filter P [i + 1 .. j] @ filter P [j + 1 .. k] = filter P [i + 1 .. (k::int)]"
proof (cases "i = j")
  case True
  then show ?thesis by simp
next
  case False
  then have "i + 1 \<le> j" using assms by simp
  then have "[i + 1 .. k] = [i + 1 .. j] @ [j + 1 .. k]"
    using assms(2) by (rule upto_split2)
  then show ?thesis by simp
qed

lemma advances_trans:
  "advances a s1 s2 \<Longrightarrow> advances a s2 s3 \<Longrightarrow> advances a s1 s3"
  using upto_filter_join [of "total_count s1" "total_count s2" "total_count s3" "multiple_of_freq a"]
  by (simp add: advances_def)

lemma process_field_advances:
  assumes "0 \<le> total_count st"
  shows "advances a st (state_of (process_field w a st f))"
proof -
  consider
    (same) "total_count (state_of (process_field w a st f)) = total_count st"
           "out (state_of (process_field w a st f)) = out st"
  | (step) "total_count (state_of (process_field w a st f)) = total_count st + 1"
           "out (state_of (process_field w a st f)) =
              out st @ (if progress_due a (total_count st + 1)
                        then [RegisteredFiles (total_count st + 1)] else [])"
    using process_field_step [of w a st f] by blast
  then show ?thesis
  proof cases
    case same
    then show ?thesis by (simp add: advances_refl)
  next
    case step
    have "progress_due a (total_count st + 1) = multiple_of_freq a (total_count st + 1)"
      using assms by (simp add: progress_due_iff)
    then show ?thesis
      using step by (simp add: advances_def progress_lines_append)
  qed
qed

lemma advances_nonneg: "advances a st st' \<Longrightarrow> 0 \<le> total_count st \<Longrightarrow> 0 \<le> total_count st'"
  by (simp add: advances_def)

lemma process_fields_advances:
  "0 \<le> total_count st \<Longrightarrow> advances a st (state_of (process_fields w a st fs))"
proof (induction fs arbitrary: st)
  case Nil
  then show ?case by (simp add: advances_refl)
next
  case (Cons f fs)
  have s: "advances a st (state_of (process_field w a st f))"
    using Cons.prems by (rule process_field_advances)
  show ?case
  proof (cases "process_field w a st f")
    case (Inl x)
    then show ?thesis using s by simp
  next
    case (Inr st1)
    then have 1: "advances a st st1" using s by simp
    then have "0 \<le> total_count st1" using Cons.prems by (rule advances_nonneg)
    then have "advances a st1 (state_of (process_fields w a st1 fs))" by (rule Cons.IH)
    then show ?thesis using 1 Inr advances_trans by simp
  qed
qed

lemma process_collection_advances:
  assumes "0 \<le> total_count st"
  shows "advances a st (state_of (process_collection w a st u))"
proof -
  let ?st0 = "st\<lparr>out := out st @ [ProcessingCollection u]\<rparr>"
  have 0: "advances a st ?st0"
    by (simp add: advances_def progress_lines_append)
  have 1: "advances a ?st0 (state_of (process_fields w a ?st0 fs))" for fs
    using assms by (simp add: process_fields_advances)
  show ?thesis
  proof (cases "get_file_fields w u")
    case (Inl e)
    then show ?thesis using 0 by (simp add: process_collection_def)
  next
    case (Inr r)
    show ?thesis
    proof (cases r)
      case None
      then show ?thesis using 0 Inr by (simp add: process_collection_def)
    next
      case (Some fs)
      then show ?thesis using advances_trans [OF 0 1 [of fs]] Inr
        by (simp add: process_collection_def)
    qed
  qed
qed

lemma process_collections_advances:
  "0 \<le> total_count st \<Longrightarrow> advances a st (state_of (process_collections w a st us))"
proof (induction us arbitrary: st)
  case Nil
  then show ?case by (simp add: advances_refl)
next
  case (Cons u us)
  have s: "advances a st (state_of (process_collection w a st u))"
    using Cons.prems by (rule process_collection_advances)
  show ?case
  proof (cases "process_collection w a st u")
    case (Inl x)
    then show ?thesis using s by simp
  next
    case (Inr st1)
    then have 1: "advances a st st1" using s by simp
    then have "0 \<le> total_count st1" using Cons.prems by (rule advances_nonneg)
    then have "advances a st1 (state_of (process_collections w a st1 us))" by (rule Cons.IH)
    then show ?thesis using 1 Inr advances_trans by simp
  qed
qed

lemma main_advances: "advances a initial_state (state_of (main w a))"
proof -
  have 0: "0 \<le> total_count initial_state" by (simp add: initial_state_def)
  have s: "advances a initial_state (state_of (process_collections w a initial_state (collections a)))"
    using 0 by (rule process_collections_advances)
  show ?thesis
  proof (cases "process_collections w a initial_state (collections a)")
    case (Inl x)
    then show ?thesis using s by (simp add: main_def)
  next
    case (Inr st)
    then show ?thesis using s by (simp add: main_def advances_def progress_lines_append)
  qed
qed

lemma main_progress_lines:
  "progress_lines (out (state_of (main w a)))
     = filter (multiple_of_freq a) [1 .. total_count (state_of (main w a))]"
  using main_advances [of a w] by (simp add: advances_def initial_state_def)

text \<open>
  C9. The periodic progress lines of a run show exactly the values of the count of
  successful registrations, from 1 to its final value, that are multiples of the
  configured frequency N, in increasing order; the same holds for the lines added by any
  field list. With no frequency configured there is none, and with N = 1 and a final
  count of 2 the lines show 1 and 2.
\<close>

theorem progress_every_nth:
  "progress_lines (out (state_of (main w a)))
     = filter (multiple_of_freq a) [1 .. total_count (state_of (main w a))]
   \<and> (0 \<le> total_count st \<longrightarrow>
        progress_lines (out (state_of (process_fields w a st fs)))
          = progress_lines (out st)
            @ filter (multiple_of_freq a)
                [total_count st + 1 .. total_count (state_of (process_fields w a st fs))])
   \<and> (logging_freq a = Some n \<longrightarrow> multiple_of_freq a k = (n dvd k))
   \<and> (logging_freq a = None \<longrightarrow> progress_lines (out (state_of (main w a))) = [])
   \<and> (logging_freq a = Some 1 \<and> total_count (state_of (main w a)) = 2 \<longrightarrow>
        progress_lines (out (state_of (main w a))) = [1, 2])"
proof -
  have 1: "progress_lines (out (state_of (main w a)))
     = filter (multiple_of_freq a) [1 .. total_count (state_of (main w a))]"
    by (rule main_progress_lines)
  have 2: "0 \<le> total_count st \<longrightarrow>
        progress_lines (out (state_of (process_fields w a st fs)))
          = progress_lines (out st)
            @ filter (multiple_of_freq a)
                [total_count st + 1 .. total_count (state_of (process_fields w a st fs))]"
    using process_fields_advances [of st a w fs] by (simp add: advances_def)
  have 3: "logging_freq a = Some n \<longrightarrow> multiple_of_freq a k = (n dvd k)"
    by (simp add: multiple_of_freq_def)
  have 4: "logging_freq a = None \<longrightarrow> progress_lines (out (state_of (main w a))) = []"
    using 1 by (simp add: multiple_of_freq_def)
  have u: "[1 .. (2::int)] = [1, 2]" by (simp add: upto_rec1)
  have 5: "logging_freq a = Some 1 \<and> total_count (state_of (main w a)) = 2 \<longrightarrow>
        progress_lines (out (state_of (main w a))) = [1, 2]"
    using 1 u by (simp add: multiple_of_freq_def)
  show ?thesis using 1 2 3 4 5 by blast
qed

lemma sample_main_run:
  "main (sample_env (Response 201 ''ok'') [mp4_field, mov_field, ftp_field]) sample_args
     = Inr \<lparr> total_size = 1500, total_count = 2,
            sent = [build_request sample_args (Some ''/a/b.mp4'') (Some 1000) ''d41d8cd98f00b204e9800998ecf8427e'',
                    build_request sample_args (Some ''/a/c.mov'') (Some 500) ''0cc175b9c0f1b6a831c399e269772661''],
            log = [],
            out = [ProcessingCollection ''https://catalog.example/record/1'',
                   RegisteredFiles 1, RegisteredFiles 2, TotalCount 2, TotalSize 1500] \<rparr>"
proof -
  have u: "strip_server_url urlparse_py (Some ''https://host/a/b.mp4'') = Inr (Some ''/a/b.mp4'')
      \<and> strip_server_url urlparse_py (Some ''/a/c.mov'') = Inr (Some ''/a/c.mov'')"
    by code_simp
  have g: "is_http_access_method mp4_field \<and> type_accepted (get_type mp4_field)
      \<and> get_uri mp4_field = Some ''https://host/a/b.mp4'' \<and> get_size int_ascii mp4_field = Inr (Some 1000)
      \<and> get_md5_checksum mp4_field = Inr ''d41d8cd98f00b204e9800998ecf8427e''
      \<and> is_http_access_method mov_field \<and> type_accepted (get_type mov_field)
      \<and> get_uri mov_field = Some ''/a/c.mov'' \<and> get_size int_ascii mov_field = Inr (Some 500)
      \<and> get_md5_checksum mov_field = Inr ''0cc175b9c0f1b6a831c399e269772661''
      \<and> \<not> is_http_access_method ftp_field"
    by code_simp
  have t: "get_fields \<lparr> record_fields = [mp4_field, mov_field, ftp_field] \<rparr> ELECTRONIC_LOCATION_AND_ACCESS
      = [mp4_field, mov_field, ftp_field]"
    by (simp add: get_fields_def ELECTRONIC_LOCATION_AND_ACCESS_def mp4_field_def mov_field_def
        ftp_field_def mk_field_def)
  show ?thesis
    using u g t
    by (simp add: main_def process_collection_def get_file_fields_def
        download_and_load_marc21_record_def process_field_def call_register_def
        register_file_def tally_def Let_def progress_due_def sample_env_def sample_args_def
        initial_state_def build_request_def)
qed

theorem progress_every_nth_witness:
  "logging_freq sample_args = Some 1
   \<and> total_count (state_of (main (sample_env (Response 201 ''ok'') [mp4_field, mov_field, ftp_field])
        sample_args)) = 2
   \<and> progress_lines (out (state_of (main (sample_env (Response 201 ''ok'') [mp4_field, mov_field, ftp_field])
        sample_args))) = [1, 2]
   \<and> logging_freq (sample_args\<lparr>logging_freq := None\<rparr>) = None
   \<and> progress_lines (out (state_of (main (sample_env (Response 201 ''ok'') [mp4_field, mov_field, ftp_field])
        (sample_args\<lparr>logging_freq := None\<rparr>)))) = []"
proof -
  have f: "logging_freq sample_args = Some 1" by (simp add: sample_args_def)
  have c: "total_count (state_of (main (sample_env (Response 201 ''ok'') [mp4_field, mov_field, ftp_field])
        sample_args)) = 2"
    by (simp add: sample_main_run)
  have n: "logging_freq (sample_args\<lparr>logging_freq := None\<rparr>) = None" by simp
  note t1 = progress_every_nth [of "sample_env (Response 201 ''ok'') [mp4_field, mov_field, ftp_field]"
      sample_args initial_state "[]" 1 1]
  note t2 = progress_every_nth [of "sample_env (Response 201 ''ok'') [mp4_field, mov_field, ftp_field]"
      "sample_args\<lparr>logging_freq := None\<rparr>" initial_state "[]" 1 1]
  have p: "progress_lines (out (state_of (main (sample_env (Response 201 ''ok'') [mp4_field, mov_field, ftp_field])
        sample_args))) = [1, 2]"
    using t1 f c by blast
  have q: "progress_lines (out (state_of (main (sample_env (Response 201 ''ok'') [mp4_field, mov_field, ftp_field])
        (sample_args\<lparr>logging_freq := None\<rparr>)))) = []"
    using t2 n by blast
  show ?thesis using f c p n q by blast
qed

end
